theory Spec2Isabelle
  imports Main
begin

section \<open>ext2: capability probing and the file system check\<close>

text \<open>
  \<^verbatim>\<open>FileSystem::CommandSupportType\<close> is an unscoped enumeration: \<^verbatim>\<open>ext2::init\<close> uses a
  value of it as an operand of \<^verbatim>\<open>&&\<close> and compares a \<^verbatim>\<open>bool\<close> with an enumerator.
  The enumerators are a datatype; their integral values are declared in
  \<^verbatim>\<open>fs/filesystem.h\<close>, which is not among the sources, so the function that gives
  each enumerator its value is a parameter of the model.
\<close>

datatype CommandSupportType =
  cmdSupportNone | cmdSupportCore | cmdSupportFileSystem | cmdSupportBackend

text \<open>The twelve static members of \<^verbatim>\<open>FS::ext2\<close>.\<close>

record ext2_support =
  m_GetUsed :: CommandSupportType
  m_GetLabel :: CommandSupportType
  m_Create :: CommandSupportType
  m_Grow :: CommandSupportType
  m_Shrink :: CommandSupportType
  m_Move :: CommandSupportType
  m_Check :: CommandSupportType
  m_Copy :: CommandSupportType
  m_Backup :: CommandSupportType
  m_SetLabel :: CommandSupportType
  m_UpdateUUID :: CommandSupportType
  m_GetUUID :: CommandSupportType

text \<open>
  \<^verbatim>\<open>ext2::init\<close>. \<open>findExternal\<close> is the collaborator that looks a tool up (command
  name and arguments); \<open>enumValue\<close> is the integral value of an enumerator. Every member
  is assigned, so the result does not depend on the members' old values. The
  assignment of \<open>m_Shrink\<close> is transcribed with the source's parentheses:
  \<^verbatim>\<open>(m_Grow != cmdSupportNone && m_GetUsed) != cmdSupportNone\<close> converts \<open>m_GetUsed\<close> to
  \<^verbatim>\<open>bool\<close> (non-zero), and compares the resulting \<^verbatim>\<open>bool\<close>, promoted to 0 or 1, with
  the value of \<open>cmdSupportNone\<close>.
\<close>

definition ext2_init ::
  "(string \<Rightarrow> string list \<Rightarrow> bool) \<Rightarrow> (CommandSupportType \<Rightarrow> int) \<Rightarrow> ext2_support" where
  "ext2_init findExternal enumValue =
    (let getUsed = (if findExternal ''dumpe2fs'' [] then cmdSupportFileSystem else cmdSupportNone);
         getLabel = cmdSupportCore;
         setLabel = (if findExternal ''e2label'' [] then cmdSupportFileSystem else cmdSupportNone);
         create = (if findExternal ''mkfs.ext2'' [] then cmdSupportFileSystem else cmdSupportNone);
         check = (if findExternal ''e2fsck'' [''-V''] then cmdSupportFileSystem else cmdSupportNone);
         updateUUID = (if findExternal ''tune2fs'' [] then cmdSupportFileSystem else cmdSupportNone);
         grow = (if check \<noteq> cmdSupportNone \<and> findExternal ''resize2fs'' []
                 then cmdSupportFileSystem else cmdSupportNone);
         shrink = (if (of_bool (grow \<noteq> cmdSupportNone \<and> enumValue getUsed \<noteq> 0) :: int)
                        \<noteq> enumValue cmdSupportNone
                   then cmdSupportFileSystem else cmdSupportNone);
         copy = (if check \<noteq> cmdSupportNone then cmdSupportCore else cmdSupportNone);
         move = (if check \<noteq> cmdSupportNone then cmdSupportCore else cmdSupportNone)
     in \<lparr> m_GetUsed = getUsed, m_GetLabel = getLabel, m_Create = create, m_Grow = grow,
          m_Shrink = shrink, m_Move = move, m_Check = check, m_Copy = copy,
          m_Backup = cmdSupportCore, m_SetLabel = setLabel, m_UpdateUUID = updateUUID,
          m_GetUUID = cmdSupportCore \<rparr>)"

text \<open>
  What \<^verbatim>\<open>ext2::check\<close> reads of the \<^verbatim>\<open>ExternalCommand\<close> it builds: whether
  \<^verbatim>\<open>run(-1)\<close> succeeded, and the exit code.
\<close>

record ExternalCommand =
  run :: bool
  exitCode :: int

definition ext2_check :: "ExternalCommand \<Rightarrow> bool" where
  "ext2_check cmd =
    (run cmd \<and> (exitCode cmd = 0 \<or> exitCode cmd = 1 \<or> exitCode cmd = 2 \<or> exitCode cmd = 256))"


section \<open>MovePhysicalVolumeJob\<close>






section \<open>The partition tree\<close>

text \<open>
  Modelled from the spec: \<^verbatim>\<open>PartitionRole\<close> (\<^verbatim>\<open>core/partitionrole.h\<close> is not among the
  sources). The spec's data model gives a partition a role "Primary | Extended | Logical
  | Unallocated | Luks, as a set because roles combine"; \<^verbatim>\<open>roles().has(r)\<close> is
  membership, and \<^verbatim>\<open>PartitionRole::None\<close> is the empty set.
\<close>

datatype PartitionRole =
  PartitionRole_Primary | PartitionRole_Extended | PartitionRole_Logical
| PartitionRole_Unallocated | PartitionRole_Luks

text \<open>
  The values of \<^verbatim>\<open>FileSystem::Type\<close> the sources name, and one constructor for all
  the others.
\<close>

datatype FileSystem_Type =
  FileSystem_Unknown | FileSystem_Extended | FileSystem_Luks | FileSystem_Other nat

text \<open>
  A file system object is an \<^verbatim>\<open>FS::luks\<close>, with the members its setters write
  (\<^verbatim>\<open>setCryptOpen\<close>, \<^verbatim>\<open>setMounted\<close>, and the mapper node
  \<^verbatim>\<open>loadInnerFilesystem\<close> was called with, if it was), or an object of another class.
  \<^verbatim>\<open>dynamic_cast<FS::luks*>\<close> succeeds on the first constructor only.
\<close>

datatype FileSystem =
  luks (luks_isCryptOpen: bool) (luks_isMounted: bool) (luks_innerFrom: "string option")
| GenericFileSystem FileSystem_Type

fun fsType :: "FileSystem \<Rightarrow> FileSystem_Type" where
  "fsType (luks _ _ _) = FileSystem_Luks"
| "fsType (GenericFileSystem t) = t"

text \<open>
  A \<^verbatim>\<open>Partition\<close>, with the constructor's arguments in the source's order (the flag
  sets, which no property below reads, are left out) and its children. The parent is a
  position in the tree, not a member.
\<close>

datatype Partition =
  Partition (roles: "PartitionRole set") (fileSystem: FileSystem)
    (firstSector: int) (lastSector: int) (deviceNode: string)
    (mountPoint: string) (isMounted: bool) (children: "Partition list")


section \<open>DeleteOperation\<close>

text \<open>
  \<^verbatim>\<open>DeleteOperation::canDelete\<close>. The argument is a pointer: \<open>None\<close> is \<^verbatim>\<open>nullptr\<close>.
  The tests are in the source's order, and an Extended partition returns before the
  Luks test is reached.
\<close>

fun canDelete :: "Partition option \<Rightarrow> bool" where
  "canDelete None = False"
| "canDelete (Some p) =
    (if isMounted p then False
     else if PartitionRole_Unallocated \<in> roles p then False
     else if PartitionRole_Extended \<in> roles p then
       (length (children p) = 1 \<and> PartitionRole_Unallocated \<in> roles (children p ! 0))
     else if PartitionRole_Luks \<in> roles p then
       (case fileSystem p of
          GenericFileSystem _ \<Rightarrow> False
        | luks cryptOpen mounted _ \<Rightarrow> (if cryptOpen \<or> mounted then False else True))
     else True)"

text \<open>
  The gate as the specification words it: refused for a mounted partition, an Unallocated
  node, an Extended node with a real (non-Unallocated) child, and a locked encrypted
  container; allowed otherwise. A locked container is a Luks partition whose container
  is not open.
\<close>

definition lockedContainer :: "Partition \<Rightarrow> bool" where
  "lockedContainer p =
    (PartitionRole_Luks \<in> roles p \<and>
     (case fileSystem p of luks cryptOpen _ _ \<Rightarrow> \<not> cryptOpen | GenericFileSystem _ \<Rightarrow> False))"

definition canDelete_spec :: "Partition \<Rightarrow> bool" where
  "canDelete_spec p =
    (\<not> (isMounted p \<or> PartitionRole_Unallocated \<in> roles p
        \<or> (PartitionRole_Extended \<in> roles p
            \<and> list_ex (\<lambda>c. PartitionRole_Unallocated \<notin> roles c) (children p))
        \<or> lockedContainer p))"

text \<open>The partitions the counterexamples and witnesses are about.\<close>

definition lockedLuksPartition :: Partition where
  "lockedLuksPartition =
     Partition {PartitionRole_Primary, PartitionRole_Luks} (luks False False None)
       2048 411647 ''/dev/sda1'' [] False []"

definition openLuksPartition :: Partition where
  "openLuksPartition =
     Partition {PartitionRole_Primary, PartitionRole_Luks}
       (luks True False (Some ''/dev/mapper/luks-sda1''))
       2048 411647 ''/dev/sda1'' [] False []"

text \<open>
  Modelled from the spec: the status of an \<^verbatim>\<open>Operation\<close> (\<^verbatim>\<open>ops/operation.h\<close> is
  not among the sources; the destructor names \<open>StatusPending\<close> and \<open>StatusNone\<close>). The
  spec lists "None | Pending | Running | Success | Error | Warning".
\<close>

datatype OperationStatus =
  StatusNone | StatusPending | StatusRunning | StatusSuccess | StatusError | StatusWarning

datatype ShredAction = NoShred | ZeroShred | RandomShred

text \<open>
  The jobs a \<^verbatim>\<open>DeleteOperation\<close> creates, each with its constructor's arguments. \<open>'d\<close>
  is the reference to the device, \<open>'p\<close> the pointer to the partition.
\<close>

datatype ('d, 'p) Job =
  DeleteFileSystemJob 'd 'p
| ShredFileSystemJob 'd 'p bool
| DeletePartitionJob 'd 'p

record ('d, 'p) DeleteOperation =
  m_Status :: OperationStatus
  m_Jobs :: "('d, 'p) Job list"
  m_TargetDevice :: 'd
  m_DeletedPartition :: 'p
  m_ShredAction :: ShredAction
  m_DeleteFileSystemJob :: "('d, 'p) Job"
  m_DeletePartitionJob :: "('d, 'p) Job"

text \<open>
  Modelled from the spec: \<^verbatim>\<open>Operation::addJob\<close> and the base class constructor
  (\<^verbatim>\<open>ops/operation.h\<close> is not among the sources). The spec's Operation is "an ordered
  list of Jobs" with a status that starts as None: a new operation has no job, and
  \<open>addJob\<close> puts a job at the end of the list.
\<close>

definition addJob :: "('d, 'p) Job \<Rightarrow> ('d, 'p) DeleteOperation \<Rightarrow> ('d, 'p) DeleteOperation" where
  "addJob job op = op\<lparr> m_Jobs := m_Jobs op @ [job] \<rparr>"

text \<open>The constructor \<^verbatim>\<open>DeleteOperation::DeleteOperation(d, p, shred)\<close>.\<close>

definition DeleteOperation_new :: "'d \<Rightarrow> 'p \<Rightarrow> ShredAction \<Rightarrow> ('d, 'p) DeleteOperation" where
  "DeleteOperation_new d p shred =
    (let deletePartitionJob = DeletePartitionJob d p;
         deleteFileSystemJob =
           (case shred of
              NoShred \<Rightarrow> DeleteFileSystemJob d p
            | ZeroShred \<Rightarrow> ShredFileSystemJob d p False
            | RandomShred \<Rightarrow> ShredFileSystemJob d p True);
         op = \<lparr> m_Status = StatusNone, m_Jobs = [], m_TargetDevice = d,
                m_DeletedPartition = p, m_ShredAction = shred,
                m_DeleteFileSystemJob = deleteFileSystemJob,
                m_DeletePartitionJob = deletePartitionJob \<rparr>
     in addJob (m_DeletePartitionJob op) (addJob (m_DeleteFileSystemJob op) op))"

text \<open>The two kinds of job the specification names.\<close>

fun destroysOrShredsFileSystem :: "('d, 'p) Job \<Rightarrow> bool" where
  "destroysOrShredsFileSystem (DeleteFileSystemJob _ _) = True"
| "destroysOrShredsFileSystem (ShredFileSystemJob _ _ _) = True"
| "destroysOrShredsFileSystem (DeletePartitionJob _ _) = False"

fun removesTableEntry :: "('d, 'p) Job \<Rightarrow> bool" where
  "removesTableEntry (DeletePartitionJob _ _) = True"
| "removesTableEntry _ = False"

text \<open>
  The destructor \<^verbatim>\<open>DeleteOperation::~DeleteOperation\<close>: the pointer
  \<^verbatim>\<open>delete\<close> is called on, if it is called. What \<^verbatim>\<open>delete\<close> destroys with the
  partition is decided by the destructor of \<^verbatim>\<open>Partition\<close>, not here.
\<close>

definition DeleteOperation_dtor :: "('d, 'p) DeleteOperation \<Rightarrow> 'p option" where
  "DeleteOperation_dtor op =
    (if m_Status op \<noteq> StatusPending \<and> m_Status op \<noteq> StatusNone
     then Some (m_DeletedPartition op) else None)"

text \<open>
  Modelled from the spec: \<^verbatim>\<open>Operation::removePreviewPartition\<close> and
  \<^verbatim>\<open>Operation::insertPreviewPartition\<close> (not among the sources), on the set of the
  partitions the device's tree holds. By the spec the operation "takes ownership
  transfer of that Partition object away from the tree during preview", and on undo
  "ownership returns to the tree": the first takes the partition out of the tree, the
  second puts it back.
\<close>

definition removePreviewPartition :: "'p \<Rightarrow> 'p set \<Rightarrow> 'p set" where
  "removePreviewPartition p held = held - {p}"

definition insertPreviewPartition :: "'p \<Rightarrow> 'p set \<Rightarrow> 'p set" where
  "insertPreviewPartition p held = insert p held"

text \<open>
  \<^verbatim>\<open>DeleteOperation::preview\<close> and \<^verbatim>\<open>DeleteOperation::undo\<close>, on the partitions the
  tree holds. The renumbering \<^verbatim>\<open>checkAdjustLogicalNumbers\<close> asks the parent for
  changes the numbers of partitions, not which partitions the tree holds, and does not
  appear. Neither function assigns a member of the operation.
\<close>

definition DeleteOperation_preview :: "('d, 'p) DeleteOperation \<Rightarrow> 'p set \<Rightarrow> 'p set" where
  "DeleteOperation_preview op held = removePreviewPartition (m_DeletedPartition op) held"

definition DeleteOperation_undo :: "('d, 'p) DeleteOperation \<Rightarrow> 'p set \<Rightarrow> 'p set" where
  "DeleteOperation_undo op held = insertPreviewPartition (m_DeletedPartition op) held"

text \<open>
  What is called on an operation between its construction and its destruction, on the
  operation and the partitions the tree holds. The status is set from outside (the
  operation stack sets it to Pending, the run to Running and to its result).
\<close>

datatype Call = CallPreview | CallUndo | CallSetStatus OperationStatus

fun call ::
  "('d, 'p) DeleteOperation \<times> 'p set \<Rightarrow> Call \<Rightarrow> ('d, 'p) DeleteOperation \<times> 'p set" where
  "call (op, held) CallPreview = (op, DeleteOperation_preview op held)"
| "call (op, held) CallUndo = (op, DeleteOperation_undo op held)"
| "call (op, held) (CallSetStatus st) = (op\<lparr> m_Status := st \<rparr>, held)"

definition lifecycle ::
  "('d, 'p) DeleteOperation \<times> 'p set \<Rightarrow> Call list \<Rightarrow> ('d, 'p) DeleteOperation \<times> 'p set" where
  "lifecycle state calls = foldl call state calls"

definition wasUndone :: "Call list \<Rightarrow> bool" where
  "wasUndone calls = (CallUndo \<in> set calls)"


section \<open>The scan of a device: LibPartedBackend::scanDevicePartitions\<close>

text \<open>
  A pointer to a node of the tree is the path of child indices that leads to it from
  the partition table; the empty path is the table itself. A partition table is the
  list of its children.
\<close>

type_synonym NodePtr = "nat list"

fun subnode :: "Partition \<Rightarrow> NodePtr \<Rightarrow> Partition option" where
  "subnode p [] = Some p"
| "subnode p (i # q) =
     (if i < length (children p) then subnode (children p ! i) q else None)"

fun nodeAt :: "Partition list \<Rightarrow> NodePtr \<Rightarrow> Partition option" where
  "nodeAt table [] = None"
| "nodeAt table (i # q) = (if i < length table then subnode (table ! i) q else None)"

text \<open>
  Modelled from the spec: \<^verbatim>\<open>PartitionNode::findPartitionBySector\<close>
  (\<^verbatim>\<open>core/partitionnode.cpp\<close> is not among the sources; only its call in the scan is).
  The spec: "\<open>findBySector(sector, roleFilter)\<close> returns the innermost node (preferring
  an Extended partition) whose range contains \<open>sector\<close> and whose role matches
  \<open>roleFilter\<close>, or the table root if none matches". A node matches when its sectors
  contain the sector and it has a role of the filter; the search looks below a node
  before it looks at the node, so what it returns has no matching node below it. The
  result is a pointer, which the caller in the sources compares with \<^verbatim>\<open>nullptr\<close>:
  \<open>None\<close> is the null pointer, which this function never returns.
\<close>

definition nodeMatches :: "int \<Rightarrow> PartitionRole set \<Rightarrow> Partition \<Rightarrow> bool" where
  "nodeMatches sector roleFilter p =
     (firstSector p \<le> sector \<and> sector \<le> lastSector p \<and> roles p \<inter> roleFilter \<noteq> {})"

fun findInner :: "int \<Rightarrow> PartitionRole set \<Rightarrow> Partition \<Rightarrow> NodePtr option"
  and findAmong :: "int \<Rightarrow> PartitionRole set \<Rightarrow> nat \<Rightarrow> Partition list \<Rightarrow> NodePtr option" where
  "findInner sector roleFilter (Partition r fs firstS lastS node mp m cs) =
     (case findAmong sector roleFilter 0 cs of
        Some q \<Rightarrow> Some q
      | None \<Rightarrow>
          if firstS \<le> sector \<and> sector \<le> lastS \<and> r \<inter> roleFilter \<noteq> {} then Some [] else None)"
| "findAmong sector roleFilter i [] = None"
| "findAmong sector roleFilter i (p # ps) =
     (case findInner sector roleFilter p of
        Some q \<Rightarrow> Some (i # q)
      | None \<Rightarrow> findAmong sector roleFilter (Suc i) ps)"

definition findPartitionBySector ::
  "Partition list \<Rightarrow> int \<Rightarrow> PartitionRole set \<Rightarrow> NodePtr option" where
  "findPartitionBySector table sector roleFilter =
     Some (case findAmong sector roleFilter 0 table of None \<Rightarrow> [] | Some q \<Rightarrow> q)"

text \<open>
  Modelled from the spec: \<^verbatim>\<open>PartitionNode::append\<close> (not among the sources), the
  spec's \<open>append(node)\<close>: the new partition becomes the last child of the node the
  pointer leads to. A pointer that leads nowhere changes nothing.
\<close>

fun appendAt :: "NodePtr \<Rightarrow> Partition \<Rightarrow> Partition list \<Rightarrow> Partition list" where
  "appendAt [] part ps = ps @ [part]"
| "appendAt (i # q) part ps =
     (if i < length ps then
        (case ps ! i of
           Partition r fs firstS lastS node mp m cs \<Rightarrow>
             ps[i := Partition r fs firstS lastS node mp m (appendAt q part cs)])
      else ps)"

text \<open>The number of partitions in a tree.\<close>

fun nodeCount :: "Partition \<Rightarrow> nat" and nodeCounts :: "Partition list \<Rightarrow> nat" where
  "nodeCount (Partition r fs firstS lastS node mp m cs) = Suc (nodeCounts cs)"
| "nodeCounts [] = 0"
| "nodeCounts (p # ps) = nodeCount p + nodeCounts ps"

text \<open>
  What libparted reports of a partition, as far as the scan reads it: \<^verbatim>\<open>num\<close>,
  \<^verbatim>\<open>type\<close>, \<^verbatim>\<open>geom.start\<close>, \<^verbatim>\<open>geom.end\<close>, the result of
  \<^verbatim>\<open>ped_partition_get_path\<close> (a null pointer is \<open>None\<close>) and of
  \<^verbatim>\<open>ped_partition_is_busy\<close>. A partition's type is normal, logical or extended, or
  any other value (free space, metadata, protected, and their combinations).
\<close>

datatype PedPartitionType =
  PED_PARTITION_NORMAL | PED_PARTITION_LOGICAL | PED_PARTITION_EXTENDED
| PED_PARTITION_OTHER nat

record PedPartition =
  ped_num :: int
  ped_type :: PedPartitionType
  geom_start :: int
  geom_end :: int
  ped_path :: "string option"
  ped_is_busy :: bool

text \<open>
  The collaborators of the scan: \<^verbatim>\<open>FileSystem::detectFileSystem\<close>,
  \<^verbatim>\<open>FS::luks::mapperName\<close> (the empty string when the container has no mapper
  device), the mount point \<^verbatim>\<open>mountPoints.findByDevice\<close> finds for a device, if any,
  and \<^verbatim>\<open>isMounted\<close> of \<^verbatim>\<open>util/helpers.h\<close>.
\<close>

record Collaborators =
  detectFileSystem :: "string \<Rightarrow> FileSystem_Type"
  mapperName :: "string \<Rightarrow> string"
  findByDevice :: "string \<Rightarrow> string option"
  helpers_isMounted :: "string \<Rightarrow> bool"

text \<open>\<^verbatim>\<open>LibPartedBackend::detectFileSystem\<close>.\<close>

definition LibPartedBackend_detectFileSystem :: "Collaborators \<Rightarrow> PedPartition \<Rightarrow> FileSystem_Type" where
  "LibPartedBackend_detectFileSystem env pedPartition =
     (case ped_path pedPartition of
        None \<Rightarrow> FileSystem_Unknown
      | Some pedPath \<Rightarrow> detectFileSystem env pedPath)"

text \<open>
  Modelled from the spec: \<^verbatim>\<open>FileSystemFactory::create\<close> (not among the sources), the
  spec's "construct the typed FileSystem object": an \<^verbatim>\<open>FS::luks\<close>, closed and not
  mounted, for the type Luks, and an object of the type's own class for any other type.
\<close>

definition FileSystemFactory_create :: "FileSystem_Type \<Rightarrow> FileSystem" where
  "FileSystemFactory_create t =
     (if t = FileSystem_Luks then luks False False None else GenericFileSystem t)"

text \<open>
  The mount point and the mounted state of a scanned partition (lines 352 to 383 of the
  source): the result is the file system object after the calls of its setters, the
  mount point (\<open>mountPt\<close> for the source's \<open>mountPoint\<close>), and \<open>mounted\<close>. The
  test \<^verbatim>\<open>fs->type() == FileSystem::Luks\<close> and the \<^verbatim>\<open>dynamic_cast\<close> that follows
  it are the one case distinction on the object.
\<close>

definition resolveMount ::
  "Collaborators \<Rightarrow> string \<Rightarrow> bool \<Rightarrow> FileSystem \<Rightarrow> FileSystem \<times> string \<times> bool" where
  "resolveMount env node busy fs =
     (case fs of
        luks _ _ inner \<Rightarrow>
          (let mapperNode = mapperName env node;
               isCryptOpen = (mapperNode \<noteq> [])
           in if isCryptOpen then
                (let mountPt = (case findByDevice env mapperNode of Some mp \<Rightarrow> mp | None \<Rightarrow> []);
                     mounted = helpers_isMounted env mapperNode
                 in (luks isCryptOpen mounted (Some mapperNode), mountPt, mounted))
              else (luks isCryptOpen False inner, [], False))
      | GenericFileSystem t \<Rightarrow>
          (fs, (case findByDevice env node of Some mp \<Rightarrow> mp | None \<Rightarrow> []), busy))"

text \<open>
  The role and the file system type the scan gives a record: \<open>None\<close> is the
  \<^verbatim>\<open>continue\<close> of the \<^verbatim>\<open>default\<close> case.
\<close>

fun classify :: "PedPartitionType \<Rightarrow> FileSystem_Type \<Rightarrow> (PartitionRole \<times> FileSystem_Type) option" where
  "classify PED_PARTITION_NORMAL t = Some (PartitionRole_Primary, t)"
| "classify PED_PARTITION_EXTENDED t = Some (PartitionRole_Extended, FileSystem_Extended)"
| "classify PED_PARTITION_LOGICAL t = Some (PartitionRole_Logical, t)"
| "classify (PED_PARTITION_OTHER _) t = None"

text \<open>
  The body of the loop for one record: \<open>None\<close> when the record is skipped, or the
  parent and the new \<^verbatim>\<open>Partition\<close>. Reading the used sectors, the label and the UUID
  is left out: it writes to the file system object's members that are not modelled.
\<close>

definition scanPartition ::
  "Collaborators \<Rightarrow> Partition list \<Rightarrow> PedPartition \<Rightarrow> (NodePtr \<times> Partition) option" where
  "scanPartition env table pedPartition =
     (if ped_num pedPartition < 1 then None
      else
        (case classify (ped_type pedPartition) (LibPartedBackend_detectFileSystem env pedPartition) of
           None \<Rightarrow> None
         | Some (r, t) \<Rightarrow>
             (let parent =
                    (case findPartitionBySector table (geom_start pedPartition) {PartitionRole_Extended} of
                       None \<Rightarrow> []
                     | Some found \<Rightarrow> found);
                  node = (case ped_path pedPartition of None \<Rightarrow> [] | Some pedPath \<Rightarrow> pedPath);
                  fs = FileSystemFactory_create t
              in case resolveMount env node (ped_is_busy pedPartition) fs of
                   (fs', mountPt, mounted) \<Rightarrow>
                     Some (parent,
                           Partition {r} fs' (geom_start pedPartition) (geom_end pedPartition)
                             node mountPt mounted []))))"

text \<open>
  The loop over the records libparted yields, on the partition table and the list
  \<open>partitions\<close>: \<^verbatim>\<open>parent->append(part); partitions.append(part)\<close>. The list
  holds each partition as it was constructed (the source's list holds pointers, and is
  read after the loop for the alignment check only).
\<close>

fun scanLoop ::
  "Collaborators \<Rightarrow> Partition list \<times> Partition list \<Rightarrow> PedPartition list \<Rightarrow>
     Partition list \<times> Partition list" where
  "scanLoop env (table, partitions) [] = (table, partitions)"
| "scanLoop env (table, partitions) (pedPartition # rest) =
     (case scanPartition env table pedPartition of
        None \<Rightarrow> scanLoop env (table, partitions) rest
      | Some (parent, part) \<Rightarrow>
          scanLoop env (appendAt parent part table, partitions @ [part]) rest)"

text \<open>
  A record the scan represents, in the specification's words: one with a valid partition
  number whose kind is normal, extended or logical.
\<close>

definition representable :: "PedPartition \<Rightarrow> bool" where
  "representable pedPartition =
     (1 \<le> ped_num pedPartition \<and>
      ped_type pedPartition \<in>
        {PED_PARTITION_NORMAL, PED_PARTITION_EXTENDED, PED_PARTITION_LOGICAL})"

text \<open>The records and collaborators of the examples.\<close>

definition exampleEnv :: Collaborators where
  "exampleEnv =
     \<lparr> detectFileSystem = (\<lambda>p. if p = ''/dev/sda1'' \<or> p = ''/dev/sda5''
                                then FileSystem_Luks else FileSystem_Other 0),
       mapperName = (\<lambda>p. if p = ''/dev/sda1'' then ''/dev/mapper/luks-sda1'' else []),
       findByDevice = (\<lambda>p. if p = ''/dev/mapper/luks-sda1'' then Some ''/home'' else None),
       helpers_isMounted = (\<lambda>p. p = ''/dev/mapper/luks-sda1'') \<rparr>"

definition exampleRecords :: "PedPartition list" where
  "exampleRecords =
     [\<lparr> ped_num = -1, ped_type = PED_PARTITION_OTHER 8, geom_start = 0, geom_end = 2047,
        ped_path = Some ''/dev/sda-1'', ped_is_busy = False \<rparr>,
      \<lparr> ped_num = 1, ped_type = PED_PARTITION_NORMAL, geom_start = 2048, geom_end = 411647,
        ped_path = Some ''/dev/sda1'', ped_is_busy = False \<rparr>,
      \<lparr> ped_num = 2, ped_type = PED_PARTITION_EXTENDED, geom_start = 411648, geom_end = 999999,
        ped_path = Some ''/dev/sda2'', ped_is_busy = False \<rparr>,
      \<lparr> ped_num = 3, ped_type = PED_PARTITION_OTHER 4, geom_start = 411648, geom_end = 413695,
        ped_path = Some ''/dev/sda3'', ped_is_busy = False \<rparr>,
      \<lparr> ped_num = 5, ped_type = PED_PARTITION_LOGICAL, geom_start = 413696, geom_end = 999999,
        ped_path = Some ''/dev/sda5'', ped_is_busy = True \<rparr>]"


text \<open>
  The table of the specification's scenario: an Extended partition on the sectors 100000
  to 500000 with the Logical partitions 5 (100000 to 200000) and 6 (200001 to 300000),
  after a Primary partition.
\<close>

definition exampleTable :: "Partition list" where
  "exampleTable =
     [Partition {PartitionRole_Primary} (GenericFileSystem (FileSystem_Other 0))
        2048 99999 ''/dev/sda1'' [] False [],
      Partition {PartitionRole_Extended} (GenericFileSystem FileSystem_Extended)
        100000 500000 ''/dev/sda2'' [] False
        [Partition {PartitionRole_Logical} (GenericFileSystem (FileSystem_Other 0))
           100000 200000 ''/dev/sda5'' [] False [],
         Partition {PartitionRole_Logical} (GenericFileSystem (FileSystem_Other 0))
           200001 300000 ''/dev/sda6'' [] False []]]"


text \<open>
  An extended partition on whose node a LUKS header is detected, with an open container
  whose mapped device is mounted.
\<close>

definition luksOnExtendedEnv :: Collaborators where
  "luksOnExtendedEnv =
     \<lparr> detectFileSystem = (\<lambda>p. if p = ''/dev/sda2'' then FileSystem_Luks else FileSystem_Other 0),
       mapperName = (\<lambda>p. if p = ''/dev/sda2'' then ''/dev/mapper/luks-sda2'' else []),
       findByDevice = (\<lambda>p. if p = ''/dev/mapper/luks-sda2'' then Some ''/mnt'' else None),
       helpers_isMounted = (\<lambda>p. p = ''/dev/mapper/luks-sda2'') \<rparr>"

definition luksOnExtendedRecord :: PedPartition where
  "luksOnExtendedRecord =
     \<lparr> ped_num = 2, ped_type = PED_PARTITION_EXTENDED, geom_start = 411648, geom_end = 999999,
       ped_path = Some ''/dev/sda2'', ped_is_busy = False \<rparr>"


section \<open>Theorems\<close>

subsection \<open>ext2\<close>

text \<open>
  C8. \<^verbatim>\<open>ext2::check\<close> reports success exactly when the e2fsck command ran and its
  exit code is 0, 1, 2 or 256; every other exit code, and a command that did not run,
  is a failure.
\<close>

theorem ext2_check_accepts_exactly:
  "ext2_check cmd = (run cmd \<and> exitCode cmd \<in> {0, 1, 2, 256})"
  by (simp add: ext2_check_def)

text \<open>
  C10. After \<^verbatim>\<open>ext2::init\<close>, Grow is supported only if Check is, Shrink only if both
  Grow and GetUsed are, and Copy and Move only if Check is; "supported" is "not
  \<open>cmdSupportNone\<close>". The value of the enumerator \<open>cmdSupportNone\<close> is 0: the comparison
  of a \<^verbatim>\<open>bool\<close> with it in the assignment of \<open>m_Shrink\<close> depends on that value.
\<close>

theorem ext2_init_dependencies:
  assumes "enumValue cmdSupportNone = 0"
  shows "(m_Grow (ext2_init findExternal enumValue) \<noteq> cmdSupportNone \<longrightarrow>
            m_Check (ext2_init findExternal enumValue) \<noteq> cmdSupportNone)
       \<and> (m_Shrink (ext2_init findExternal enumValue) \<noteq> cmdSupportNone \<longrightarrow>
            m_Grow (ext2_init findExternal enumValue) \<noteq> cmdSupportNone
          \<and> m_GetUsed (ext2_init findExternal enumValue) \<noteq> cmdSupportNone)
       \<and> (m_Copy (ext2_init findExternal enumValue) \<noteq> cmdSupportNone \<longrightarrow>
            m_Check (ext2_init findExternal enumValue) \<noteq> cmdSupportNone)
       \<and> (m_Move (ext2_init findExternal enumValue) \<noteq> cmdSupportNone \<longrightarrow>
            m_Check (ext2_init findExternal enumValue) \<noteq> cmdSupportNone)"
proof (intro conjI impI)
  assume "m_Grow (ext2_init findExternal enumValue) \<noteq> cmdSupportNone"
  then show "m_Check (ext2_init findExternal enumValue) \<noteq> cmdSupportNone"
    by (simp add: ext2_init_def Let_def split: if_splits)
next
  assume shrink: "m_Shrink (ext2_init findExternal enumValue) \<noteq> cmdSupportNone"
  then show "m_Grow (ext2_init findExternal enumValue) \<noteq> cmdSupportNone"
    using assms by (simp add: ext2_init_def Let_def split: if_splits)
  from shrink have "enumValue (m_GetUsed (ext2_init findExternal enumValue)) \<noteq> 0"
    using assms by (simp add: ext2_init_def Let_def split: if_splits)
  with assms show "m_GetUsed (ext2_init findExternal enumValue) \<noteq> cmdSupportNone"
    by auto
next
  assume "m_Copy (ext2_init findExternal enumValue) \<noteq> cmdSupportNone"
  then show "m_Check (ext2_init findExternal enumValue) \<noteq> cmdSupportNone"
    by (simp add: ext2_init_def Let_def split: if_splits)
next
  assume "m_Move (ext2_init findExternal enumValue) \<noteq> cmdSupportNone"
  then show "m_Check (ext2_init findExternal enumValue) \<noteq> cmdSupportNone"
    by (simp add: ext2_init_def Let_def split: if_splits)
qed

theorem ext2_init_dependencies_witness:
  "(of_bool (cmdSupportNone \<noteq> cmdSupportNone) :: int) = 0
   \<and> m_Shrink (ext2_init (\<lambda>cmd args. True) (\<lambda>t. of_bool (t \<noteq> cmdSupportNone)))
       = cmdSupportFileSystem
   \<and> m_Grow (ext2_init (\<lambda>cmd args. True) (\<lambda>t. of_bool (t \<noteq> cmdSupportNone)))
       \<noteq> cmdSupportNone
   \<and> m_GetUsed (ext2_init (\<lambda>cmd args. True) (\<lambda>t. of_bool (t \<noteq> cmdSupportNone)))
       \<noteq> cmdSupportNone
   \<and> m_Check (ext2_init (\<lambda>cmd args. True) (\<lambda>t. of_bool (t \<noteq> cmdSupportNone)))
       \<noteq> cmdSupportNone"
proof -
  have zero: "(\<lambda>t. (of_bool (t \<noteq> cmdSupportNone) :: int)) cmdSupportNone = 0"
    by simp
  have shrink: "m_Shrink (ext2_init (\<lambda>cmd args. True) (\<lambda>t. of_bool (t \<noteq> cmdSupportNone)))
      = cmdSupportFileSystem"
    by (simp add: ext2_init_def)
  from ext2_init_dependencies [of "\<lambda>t. of_bool (t \<noteq> cmdSupportNone)" "\<lambda>cmd args. True", OF zero]
    shrink
  show ?thesis by simp
qed


subsection \<open>MovePhysicalVolumeJob\<close>






subsection \<open>DeleteOperation\<close>

text \<open>
  C3. Whatever the shred action, a new \<^verbatim>\<open>DeleteOperation\<close> has exactly two jobs, in
  this order: the job that destroys or shreds the file system (a delete job for
  \<open>NoShred\<close>, a shred job with zeros for \<open>ZeroShred\<close>, with random data for
  \<open>RandomShred\<close>), then the job that removes the entry of the partition table; both are
  for the operation's device and partition.
\<close>

theorem DeleteOperation_new_jobs:
  "m_Jobs (DeleteOperation_new d p shred) =
     [m_DeleteFileSystemJob (DeleteOperation_new d p shred), DeletePartitionJob d p]
   \<and> m_DeleteFileSystemJob (DeleteOperation_new d p shred) =
       (case shred of
          NoShred \<Rightarrow> DeleteFileSystemJob d p
        | ZeroShred \<Rightarrow> ShredFileSystemJob d p False
        | RandomShred \<Rightarrow> ShredFileSystemJob d p True)
   \<and> length (m_Jobs (DeleteOperation_new d p shred)) = 2
   \<and> destroysOrShredsFileSystem (m_Jobs (DeleteOperation_new d p shred) ! 0)
   \<and> removesTableEntry (m_Jobs (DeleteOperation_new d p shred) ! 1)"
  by (cases shred) (simp_all add: DeleteOperation_new_def addJob_def Let_def)

text \<open>
  C1, as the claim states it, fails: a locked encrypted container that is not mounted can
  be deleted, although the claim lists it among the refused partitions.
\<close>

theorem canDelete_locked_container_counterexample:
  "canDelete (Some lockedLuksPartition) \<and> lockedContainer lockedLuksPartition
   \<and> \<not> canDelete_spec lockedLuksPartition"
  by (simp add: lockedLuksPartition_def lockedContainer_def canDelete_spec_def)

text \<open>
  C1, amended. \<^verbatim>\<open>canDelete\<close> returns false exactly for a null pointer, a mounted
  partition, an Unallocated node, an Extended node whose children are anything but a
  single Unallocated node, and a Luks partition that is not Extended and whose file
  system is not a LUKS file system, or whose container is open (unlocked) or mounted;
  it returns true in every other case, so for a locked container that is not mounted.
\<close>

theorem canDelete_refuses_exactly:
  "(canDelete ptr = False) =
     (ptr = None \<or>
      (\<exists>p. ptr = Some p \<and>
        (isMounted p
         \<or> PartitionRole_Unallocated \<in> roles p
         \<or> (PartitionRole_Extended \<in> roles p
             \<and> (\<nexists>c. children p = [c] \<and> PartitionRole_Unallocated \<in> roles c))
         \<or> (PartitionRole_Luks \<in> roles p \<and> PartitionRole_Extended \<notin> roles p
             \<and> (\<forall>cryptOpen mounted inner.
                   fileSystem p = luks cryptOpen mounted inner \<longrightarrow> cryptOpen \<or> mounted)))))"
proof (cases ptr)
  case None
  then show ?thesis by simp
next
  case (Some p)
  have sole: "(length (children p) = 1 \<and> PartitionRole_Unallocated \<in> roles (children p ! 0))
      = (\<exists>c. children p = [c] \<and> PartitionRole_Unallocated \<in> roles c)"
    by (cases "children p") auto
  have lk: "(case fileSystem p of
               GenericFileSystem x \<Rightarrow> False
             | luks cryptOpen mounted x \<Rightarrow> if cryptOpen \<or> mounted then False else True)
      = (\<not> (\<forall>cryptOpen mounted inner.
               fileSystem p = luks cryptOpen mounted inner \<longrightarrow> cryptOpen \<or> mounted))"
    by (cases "fileSystem p") auto
  show ?thesis
    unfolding Some canDelete.simps sole lk by auto
qed

theorem canDelete_refuses_exactly_witness:
  "canDelete (Some openLuksPartition) = False
   \<and> fileSystem openLuksPartition = luks True False (Some ''/dev/mapper/luks-sda1'')
   \<and> canDelete (Some lockedLuksPartition) = True"
proof -
  have "fileSystem lockedLuksPartition = luks False False None"
       "roles lockedLuksPartition = {PartitionRole_Primary, PartitionRole_Luks}"
       "\<not> isMounted lockedLuksPartition"
    by (simp_all add: lockedLuksPartition_def)
  moreover have "fileSystem openLuksPartition = luks True False (Some ''/dev/mapper/luks-sda1'')"
       "roles openLuksPartition = {PartitionRole_Primary, PartitionRole_Luks}"
    by (simp_all add: openLuksPartition_def)
  ultimately show ?thesis
    using canDelete_refuses_exactly [of "Some openLuksPartition"]
          canDelete_refuses_exactly [of "Some lockedLuksPartition"]
    by simp
qed

lemma call_keeps_partition: "m_DeletedPartition (fst (call state c)) = m_DeletedPartition (fst state)"
  by (cases state; cases c) simp_all

lemma lifecycle_keeps_partition:
  "m_DeletedPartition (fst (lifecycle state calls)) = m_DeletedPartition (fst state)"
  unfolding lifecycle_def
  by (induction calls arbitrary: state) (simp_all add: call_keeps_partition)

lemma lifecycle_append: "lifecycle state (xs @ ys) = lifecycle (lifecycle state xs) ys"
  by (simp add: lifecycle_def)

lemma lifecycle_set_status:
  "snd (lifecycle state (map CallSetStatus sts)) = snd state
   \<and> m_DeletedPartition (fst (lifecycle state (map CallSetStatus sts)))
       = m_DeletedPartition (fst state)"
  unfolding lifecycle_def
proof (induction sts arbitrary: state)
  case Nil
  show ?case by simp
next
  case (Cons st sts)
  obtain op held where s: "state = (op, held)" by (cases state)
  show ?case using Cons[of "(op\<lparr> m_Status := st \<rparr>, held)"] by (simp add: s)
qed

text \<open>
  C5, as the claim states it, fails: an operation that was previewed and put on the stack
  (status Pending), and never undone, does not destroy its partition when it is
  destroyed, although the tree no longer holds the partition.
\<close>

theorem DeleteOperation_dtor_pending_counterexample:
  "\<not> wasUndone [CallPreview, CallSetStatus StatusPending]
   \<and> DeleteOperation_dtor
        (fst (lifecycle (DeleteOperation_new ''/dev/sda'' (7::nat) NoShred, {7})
                [CallPreview, CallSetStatus StatusPending])) = None
   \<and> (7::nat) \<notin> snd (lifecycle (DeleteOperation_new ''/dev/sda'' (7::nat) NoShred, {7})
                        [CallPreview, CallSetStatus StatusPending])"
  by (simp add: wasUndone_def lifecycle_def DeleteOperation_dtor_def DeleteOperation_new_def
        addJob_def Let_def DeleteOperation_preview_def removePreviewPartition_def)

text \<open>
  C5, amended. A \<^verbatim>\<open>DeleteOperation\<close> is the sole owner of the partition it removed from
  the tree during preview: it keeps the pointer whatever is called on it, from the
  preview on the tree does not hold the partition, and an undo returns the partition to
  the tree. Destroying the operation destroys the partition exactly when the operation's
  status is neither Pending nor None, that is when it is Running, Success, Error or
  Warning, and not exactly when the operation was not undone: the calls of preview and
  undo leave the status as it is, and an operation destroyed while Pending or None
  leaves the partition alive.
\<close>

theorem DeleteOperation_owner_and_dtor:
  "m_DeletedPartition (fst (lifecycle (op, held) calls)) = m_DeletedPartition op
   \<and> m_DeletedPartition op
       \<notin> snd (lifecycle (op, held) (calls @ [CallPreview] @ map CallSetStatus sts))
   \<and> m_DeletedPartition op
       \<in> snd (lifecycle (op, held) (calls @ [CallUndo] @ map CallSetStatus sts))
   \<and> m_Status (fst (lifecycle (op, held) (calls @ [CallSetStatus st]))) = st
   \<and> m_Status (fst (lifecycle (op, held) (calls @ [CallUndo])))
       = m_Status (fst (lifecycle (op, held) calls))
   \<and> m_Status (fst (lifecycle (op, held) (calls @ [CallPreview])))
       = m_Status (fst (lifecycle (op, held) calls))
   \<and> (DeleteOperation_dtor op = Some (m_DeletedPartition op))
       = (m_Status op \<in> {StatusRunning, StatusSuccess, StatusError, StatusWarning})
   \<and> (DeleteOperation_dtor op = None) = (m_Status op \<in> {StatusPending, StatusNone})"
proof -
  obtain op' held' where s: "lifecycle (op, held) calls = (op', held')"
    by (cases "lifecycle (op, held) calls")
  have ptr: "m_DeletedPartition op' = m_DeletedPartition op"
    using lifecycle_keeps_partition[of "(op, held)" calls] by (simp add: s)
  have one: "lifecycle (op, held) (calls @ [c]) = call (op', held') c" for c
    by (simp add: lifecycle_append s) (simp add: lifecycle_def)
  have after: "snd (lifecycle (op, held) (calls @ [c] @ map CallSetStatus sts))
      = snd (call (op', held') c)" for c
    using lifecycle_set_status[of "call (op', held') c" sts]
    by (simp add: lifecycle_append s) (simp add: lifecycle_def)
  have dtor: "(DeleteOperation_dtor op = Some (m_DeletedPartition op))
       = (m_Status op \<in> {StatusRunning, StatusSuccess, StatusError, StatusWarning})"
    "(DeleteOperation_dtor op = None) = (m_Status op \<in> {StatusPending, StatusNone})"
    by (cases "m_Status op"; simp add: DeleteOperation_dtor_def)+
  show ?thesis
  proof (intro conjI)
    show "m_DeletedPartition (fst (lifecycle (op, held) calls)) = m_DeletedPartition op"
      by (rule lifecycle_keeps_partition[of "(op, held)" calls, simplified])
    show "m_DeletedPartition op
       \<notin> snd (lifecycle (op, held) (calls @ [CallPreview] @ map CallSetStatus sts))"
      unfolding after
      by (simp add: DeleteOperation_preview_def removePreviewPartition_def ptr)
    show "m_DeletedPartition op
       \<in> snd (lifecycle (op, held) (calls @ [CallUndo] @ map CallSetStatus sts))"
      unfolding after
      by (simp add: DeleteOperation_undo_def insertPreviewPartition_def ptr)
    show "m_Status (fst (lifecycle (op, held) (calls @ [CallSetStatus st]))) = st"
      unfolding one by simp
    show "m_Status (fst (lifecycle (op, held) (calls @ [CallUndo])))
       = m_Status (fst (lifecycle (op, held) calls))"
      unfolding one s by simp
    show "m_Status (fst (lifecycle (op, held) (calls @ [CallPreview])))
       = m_Status (fst (lifecycle (op, held) calls))"
      unfolding one s by simp
  qed (rule dtor)+
qed

subsection \<open>The partition tree\<close>

lemma subnode_append:
  "subnode p (q @ q') = (case subnode p q of None \<Rightarrow> None | Some p' \<Rightarrow> subnode p' q')"
  by (induction q arbitrary: p) simp_all

text \<open>A search that finds nothing has seen no matching node.\<close>

lemma find_None:
  "findInner s rf p = None \<Longrightarrow> subnode p q = Some p' \<Longrightarrow> \<not> nodeMatches s rf p'"
  "findAmong s rf i ps = None \<Longrightarrow> j < length ps \<Longrightarrow> subnode (ps ! j) q = Some p' \<Longrightarrow>
     \<not> nodeMatches s rf p'"
proof (induction s rf p and s rf i ps arbitrary: q p' and j q p' rule: findInner_findAmong.induct)
  case (1 sector roleFilter r fs firstS lastS node mp m cs)
  from "1.prems"(1) have none: "findAmong sector roleFilter 0 cs = None"
    and self: "\<not> (firstS \<le> sector \<and> sector \<le> lastS \<and> r \<inter> roleFilter \<noteq> {})"
    by (simp_all split: option.splits if_splits)
  show ?case
  proof (cases q)
    case Nil
    with "1.prems"(2) self show ?thesis by (auto simp: nodeMatches_def)
  next
    case (Cons k q0)
    with "1.prems"(2) have "k < length cs" "subnode (cs ! k) q0 = Some p'"
      by (simp_all split: if_splits)
    with "1.IH"[OF none] show ?thesis by blast
  qed
next
  case (2 sector roleFilter i)
  then show ?case by simp
next
  case (3 sector roleFilter i p ps)
  from "3.prems"(1) have hd: "findInner sector roleFilter p = None"
    and tl: "findAmong sector roleFilter (Suc i) ps = None"
    by (simp_all split: option.splits)
  show ?case
  proof (cases j)
    case 0
    with "3.prems"(3) "3.IH"(1)[OF hd] show ?thesis by simp
  next
    case (Suc j0)
    with "3.prems"(2,3) "3.IH"(2)[OF hd tl, of j0 q p'] show ?thesis by simp
  qed
qed

text \<open>
  A search that finds a node: the pointer leads to a node that matches, below which no
  node matches. For a list of siblings, the pointer starts at the sibling's index.
\<close>

lemma find_Some:
  "findInner s rf p = Some q \<Longrightarrow>
     \<exists>p'. subnode p q = Some p' \<and> nodeMatches s rf p'
        \<and> (\<forall>q' p''. q' \<noteq> [] \<longrightarrow> subnode p' q' = Some p'' \<longrightarrow> \<not> nodeMatches s rf p'')"
  "findAmong s rf i ps = Some q \<Longrightarrow>
     \<exists>j q0 p'. q = (i + j) # q0 \<and> j < length ps \<and> subnode (ps ! j) q0 = Some p'
        \<and> nodeMatches s rf p'
        \<and> (\<forall>q' p''. q' \<noteq> [] \<longrightarrow> subnode p' q' = Some p'' \<longrightarrow> \<not> nodeMatches s rf p'')"
proof (induction s rf p and s rf i ps arbitrary: q and q rule: findInner_findAmong.induct)
  case (1 sector roleFilter r fs firstS lastS node mp m cs)
  let ?p = "Partition r fs firstS lastS node mp m cs"
  show ?case
  proof (cases "findAmong sector roleFilter 0 cs")
    case None
    with "1.prems" have q: "q = []"
      and self: "firstS \<le> sector \<and> sector \<le> lastS \<and> r \<inter> roleFilter \<noteq> {}"
      by (simp_all split: if_splits)
    have below: "\<not> nodeMatches sector roleFilter p''"
      if "q' \<noteq> []" "subnode ?p q' = Some p''" for q' p''
    proof -
      from that obtain k q0 where "q' = k # q0" by (cases q') auto
      with that(2) have "k < length cs" "subnode (cs ! k) q0 = Some p''"
        by (simp_all split: if_splits)
      with find_None(2)[OF None] show ?thesis by blast
    qed
    show ?thesis
      unfolding q using self below by (auto simp: nodeMatches_def)
  next
    case (Some q1)
    with "1.prems" have q: "q = q1" by simp
    from "1.IH"[OF Some] obtain j q0 p' where
      f: "q1 = (0 + j) # q0" "j < length cs" "subnode (cs ! j) q0 = Some p'"
         "nodeMatches sector roleFilter p'"
         "\<forall>q' p''. q' \<noteq> [] \<longrightarrow> subnode p' q' = Some p'' \<longrightarrow> \<not> nodeMatches sector roleFilter p''"
      by blast
    have "subnode ?p q = Some p'" using f(1,2,3) q by simp
    with f(4,5) show ?thesis by blast
  qed
next
  case (2 sector roleFilter i)
  then show ?case by simp
next
  case (3 sector roleFilter i p ps)
  show ?case
  proof (cases "findInner sector roleFilter p")
    case None
    with "3.prems" have tl: "findAmong sector roleFilter (Suc i) ps = Some q" by simp
    from "3.IH"(2)[OF None tl] obtain j q0 p' where
      f: "q = (Suc i + j) # q0" "j < length ps" "subnode (ps ! j) q0 = Some p'"
         "nodeMatches sector roleFilter p'"
         "\<forall>q' p''. q' \<noteq> [] \<longrightarrow> subnode p' q' = Some p'' \<longrightarrow> \<not> nodeMatches sector roleFilter p''"
      by blast
    have "q = (i + Suc j) # q0" "Suc j < length (p # ps)" "subnode ((p # ps) ! Suc j) q0 = Some p'"
      using f(1,2,3) by simp_all
    with f(4,5) show ?thesis by blast
  next
    case (Some q1)
    with "3.prems" have q: "q = i # q1" by simp
    from "3.IH"(1)[OF Some] obtain p' where
      f: "subnode p q1 = Some p'" "nodeMatches sector roleFilter p'"
         "\<forall>q' p''. q' \<noteq> [] \<longrightarrow> subnode p' q' = Some p'' \<longrightarrow> \<not> nodeMatches sector roleFilter p''"
      by blast
    have "q = (i + 0) # q1" "0 < length (p # ps)" "subnode ((p # ps) ! 0) q1 = Some p'"
      using q f(1) by simp_all
    with f(2,3) show ?thesis by blast
  qed
qed

subsection \<open>The scan\<close>

lemma fsType_create: "fsType (FileSystemFactory_create t) = t"
  by (cases t) (simp_all add: FileSystemFactory_create_def)

lemma fsType_resolveMount: "fsType (fst (resolveMount env node busy fs)) = fsType fs"
  by (cases fs) (simp_all add: resolveMount_def Let_def)

lemma scanPartition_Some:
  assumes "scanPartition env table pedPartition = Some (parent, part)"
  obtains r t where
    "1 \<le> ped_num pedPartition"
    "classify (ped_type pedPartition) (LibPartedBackend_detectFileSystem env pedPartition)
       = Some (r, t)"
    "parent = (case findPartitionBySector table (geom_start pedPartition) {PartitionRole_Extended}
                 of None \<Rightarrow> [] | Some found \<Rightarrow> found)"
    "part = (case resolveMount env (case ped_path pedPartition of None \<Rightarrow> [] | Some pedPath \<Rightarrow> pedPath)
                    (ped_is_busy pedPartition) (FileSystemFactory_create t) of
               (fs', mountPt, mounted) \<Rightarrow>
                 Partition {r} fs' (geom_start pedPartition) (geom_end pedPartition)
                   (case ped_path pedPartition of None \<Rightarrow> [] | Some pedPath \<Rightarrow> pedPath)
                   mountPt mounted [])"
  using assms
  by (auto simp: scanPartition_def Let_def split: if_splits option.splits prod.splits)

lemma scanPartition_None_iff:
  "(scanPartition env table pedPartition = None) = (\<not> representable pedPartition)"
proof -
  obtain fs' mountPt mounted where
    "resolveMount env (case ped_path pedPartition of None \<Rightarrow> [] | Some pedPath \<Rightarrow> pedPath)
       (ped_is_busy pedPartition)
       (FileSystemFactory_create (LibPartedBackend_detectFileSystem env pedPartition))
     = (fs', mountPt, mounted)"
    using prod_cases3 by blast
  moreover obtain fs'' mountPt' mounted' where
    "resolveMount env (case ped_path pedPartition of None \<Rightarrow> [] | Some pedPath \<Rightarrow> pedPath)
       (ped_is_busy pedPartition) (FileSystemFactory_create FileSystem_Extended)
     = (fs'', mountPt', mounted')"
    using prod_cases3 by blast
  ultimately show ?thesis
    by (cases "ped_type pedPartition")
       (simp_all add: scanPartition_def representable_def Let_def)
qed

text \<open>
  C4, as the claim states it, fails: on an extended partition whose detected file system
  is LUKS, with an open container whose mapped device is mounted, the scan creates a
  partition of type Extended, loads no inner file system, and records the partition
  with the mount point and the busy state of its own node: no mount point, not mounted.
\<close>

theorem scanPartition_luks_on_extended_counterexample:
  "LibPartedBackend_detectFileSystem luksOnExtendedEnv luksOnExtendedRecord = FileSystem_Luks
   \<and> mapperName luksOnExtendedEnv ''/dev/sda2'' = ''/dev/mapper/luks-sda2''
   \<and> helpers_isMounted luksOnExtendedEnv ''/dev/mapper/luks-sda2''
   \<and> findByDevice luksOnExtendedEnv ''/dev/mapper/luks-sda2'' = Some ''/mnt''
   \<and> scanPartition luksOnExtendedEnv [] luksOnExtendedRecord
       = Some ([], Partition {PartitionRole_Extended} (GenericFileSystem FileSystem_Extended)
                     411648 999999 ''/dev/sda2'' [] False [])"
  by (simp add: luksOnExtendedEnv_def luksOnExtendedRecord_def scanPartition_def Let_def
        LibPartedBackend_detectFileSystem_def FileSystemFactory_create_def resolveMount_def
        findPartitionBySector_def)

text \<open>
  C4, amended. The scan creates a partition for every record with a valid number and a
  kind of normal, extended or logical, and the partition's file system type is LUKS
  exactly when the record's detected file system is LUKS and the record is not an
  extended partition (an extended record gets the type Extended whatever was detected).
  When the type is LUKS, the mount point and the mounted state are those of the mapped
  device \<open>mapperName node\<close>, not of the partition's own node: with a mapper device (an
  unlocked container) the inner file system is loaded from it, the mount point is what
  the mount table has for it, and the partition is mounted exactly when the mapped
  device is; without one (a locked container) nothing is loaded and the partition is
  recorded as not mounted, with no mount point.
\<close>

theorem scanPartition_luks_mount_state:
  assumes "representable pedPartition"
  shows "\<exists>parent part. scanPartition env table pedPartition = Some (parent, part)
      \<and> ((fsType (fileSystem part) = FileSystem_Luks)
           = (LibPartedBackend_detectFileSystem env pedPartition = FileSystem_Luks
              \<and> ped_type pedPartition \<noteq> PED_PARTITION_EXTENDED))
      \<and> (fsType (fileSystem part) = FileSystem_Luks \<longrightarrow>
           (mapperName env (deviceNode part) \<noteq> [] \<longrightarrow>
              fileSystem part
                = luks True (helpers_isMounted env (mapperName env (deviceNode part)))
                    (Some (mapperName env (deviceNode part)))
              \<and> isMounted part = helpers_isMounted env (mapperName env (deviceNode part))
              \<and> mountPoint part
                  = (case findByDevice env (mapperName env (deviceNode part)) of
                       Some mp \<Rightarrow> mp | None \<Rightarrow> []))
         \<and> (mapperName env (deviceNode part) = [] \<longrightarrow>
              fileSystem part = luks False False None
              \<and> \<not> isMounted part \<and> mountPoint part = []))"
proof -
  from assms obtain parent part where
    some: "scanPartition env table pedPartition = Some (parent, part)"
    using scanPartition_None_iff[of env table pedPartition] by (cases "scanPartition env table pedPartition") auto
  from some obtain r t where
    num: "1 \<le> ped_num pedPartition"
    and cl: "classify (ped_type pedPartition) (LibPartedBackend_detectFileSystem env pedPartition)
       = Some (r, t)"
    and part: "part = (case resolveMount env (case ped_path pedPartition of None \<Rightarrow> [] | Some pedPath \<Rightarrow> pedPath)
                    (ped_is_busy pedPartition) (FileSystemFactory_create t) of
               (fs', mountPt, mounted) \<Rightarrow>
                 Partition {r} fs' (geom_start pedPartition) (geom_end pedPartition)
                   (case ped_path pedPartition of None \<Rightarrow> [] | Some pedPath \<Rightarrow> pedPath)
                   mountPt mounted [])"
    by (rule scanPartition_Some)
  define node where "node = (case ped_path pedPartition of None \<Rightarrow> [] | Some pedPath \<Rightarrow> pedPath)"
  obtain fs' mountPt mounted where
    rm: "resolveMount env node (ped_is_busy pedPartition) (FileSystemFactory_create t)
           = (fs', mountPt, mounted)"
    by (cases "resolveMount env node (ped_is_busy pedPartition) (FileSystemFactory_create t)") auto
  from part rm have sel: "fileSystem part = fs'" "deviceNode part = node"
    "isMounted part = mounted" "mountPoint part = mountPt"
    by (simp_all add: node_def)
  have ty: "fsType fs' = t"
    using fsType_resolveMount[of env node "ped_is_busy pedPartition" "FileSystemFactory_create t"]
    by (simp add: rm fsType_create)
  have t_iff: "(t = FileSystem_Luks)
      = (LibPartedBackend_detectFileSystem env pedPartition = FileSystem_Luks
         \<and> ped_type pedPartition \<noteq> PED_PARTITION_EXTENDED)"
    using cl by (cases "ped_type pedPartition") auto
  have luks_case: "(mapperName env node \<noteq> [] \<longrightarrow>
              fs' = luks True (helpers_isMounted env (mapperName env node))
                    (Some (mapperName env node))
              \<and> mounted = helpers_isMounted env (mapperName env node)
              \<and> mountPt = (case findByDevice env (mapperName env node) of
                       Some mp \<Rightarrow> mp | None \<Rightarrow> []))
         \<and> (mapperName env node = [] \<longrightarrow>
              fs' = luks False False None \<and> \<not> mounted \<and> mountPt = [])"
    if "t = FileSystem_Luks"
    using rm that by (auto simp: resolveMount_def FileSystemFactory_create_def Let_def)
  have "((fsType (fileSystem part) = FileSystem_Luks)
           = (LibPartedBackend_detectFileSystem env pedPartition = FileSystem_Luks
              \<and> ped_type pedPartition \<noteq> PED_PARTITION_EXTENDED))
      \<and> (fsType (fileSystem part) = FileSystem_Luks \<longrightarrow>
           (mapperName env (deviceNode part) \<noteq> [] \<longrightarrow>
              fileSystem part
                = luks True (helpers_isMounted env (mapperName env (deviceNode part)))
                    (Some (mapperName env (deviceNode part)))
              \<and> isMounted part = helpers_isMounted env (mapperName env (deviceNode part))
              \<and> mountPoint part
                  = (case findByDevice env (mapperName env (deviceNode part)) of
                       Some mp \<Rightarrow> mp | None \<Rightarrow> []))
         \<and> (mapperName env (deviceNode part) = [] \<longrightarrow>
              fileSystem part = luks False False None
              \<and> \<not> isMounted part \<and> mountPoint part = []))"
    unfolding sel ty using t_iff luks_case by blast
  with some show ?thesis by blast
qed

theorem scanPartition_luks_mount_state_witness:
  "representable (exampleRecords ! 1)
   \<and> scanPartition exampleEnv [] (exampleRecords ! 1)
     = Some ([], Partition {PartitionRole_Primary}
                   (luks True True (Some ''/dev/mapper/luks-sda1''))
                   2048 411647 ''/dev/sda1'' ''/home'' True [])
   \<and> mapperName exampleEnv ''/dev/sda1'' = ''/dev/mapper/luks-sda1''
   \<and> helpers_isMounted exampleEnv ''/dev/mapper/luks-sda1''
   \<and> findByDevice exampleEnv ''/dev/mapper/luks-sda1'' = Some ''/home''
   \<and> findByDevice exampleEnv ''/dev/sda1'' = None"
proof -
  define created where "created = Partition {PartitionRole_Primary}
                   (luks True True (Some ''/dev/mapper/luks-sda1''))
                   2048 411647 ''/dev/sda1'' ''/home'' True []"
  have rep: "representable (exampleRecords ! 1)"
    by (simp add: representable_def exampleRecords_def)
  have s: "scanPartition exampleEnv [] (exampleRecords ! 1) = Some ([], created)"
    by (simp add: scanPartition_def exampleEnv_def exampleRecords_def Let_def created_def
          LibPartedBackend_detectFileSystem_def FileSystemFactory_create_def resolveMount_def
          findPartitionBySector_def)
  have mapper: "mapperName exampleEnv ''/dev/sda1'' = ''/dev/mapper/luks-sda1''"
    and mp: "findByDevice exampleEnv ''/dev/mapper/luks-sda1'' = Some ''/home''"
    and raw: "findByDevice exampleEnv ''/dev/sda1'' = None"
    by (simp_all add: exampleEnv_def)
  from scanPartition_luks_mount_state [OF rep, of exampleEnv "[]"]
  obtain parent part where
    some: "scanPartition exampleEnv [] (exampleRecords ! 1) = Some (parent, part)"
    and lk: "fsType (fileSystem part) = FileSystem_Luks \<longrightarrow>
           (mapperName exampleEnv (deviceNode part) \<noteq> [] \<longrightarrow>
              fileSystem part
                = luks True (helpers_isMounted exampleEnv (mapperName exampleEnv (deviceNode part)))
                    (Some (mapperName exampleEnv (deviceNode part)))
              \<and> isMounted part = helpers_isMounted exampleEnv (mapperName exampleEnv (deviceNode part))
              \<and> mountPoint part
                  = (case findByDevice exampleEnv (mapperName exampleEnv (deviceNode part)) of
                       Some mp \<Rightarrow> mp | None \<Rightarrow> []))"
    by blast
  from some s have part: "part = created" by simp
  have "helpers_isMounted exampleEnv ''/dev/mapper/luks-sda1''"
    using lk unfolding part by (simp add: created_def mapper)
  with rep s mapper mp raw show ?thesis by (simp add: created_def)
qed

text \<open>
  C6. \<open>findPartitionBySector\<close> never returns the null pointer. It returns the table
  root exactly when no node of the tree contains the sector and has a role of the
  filter; otherwise it returns a node that contains the sector and has a role of the
  filter, below which no node does (the innermost one). In the scan, every record that
  is not skipped gets a new partition, whose parent is what the search with the Extended
  filter returns for the record's first sector, so it is the table root when no Extended
  partition contains that sector.
\<close>

theorem findPartitionBySector_innermost_or_root:
  "\<exists>ptr. findPartitionBySector table s rf = Some ptr
     \<and> ((ptr = []) = (\<forall>q p. nodeAt table q = Some p \<longrightarrow> \<not> nodeMatches s rf p))
     \<and> (ptr \<noteq> [] \<longrightarrow>
          (\<exists>p. nodeAt table ptr = Some p \<and> nodeMatches s rf p
             \<and> (\<forall>q' p'. q' \<noteq> [] \<longrightarrow> nodeAt table (ptr @ q') = Some p' \<longrightarrow>
                   \<not> nodeMatches s rf p')))
     \<and> (representable pedPartition \<longrightarrow>
          (\<exists>parent part. scanPartition env table pedPartition = Some (parent, part)
             \<and> findPartitionBySector table (geom_start pedPartition) {PartitionRole_Extended}
                 = Some parent
             \<and> ((\<forall>q p. nodeAt table q = Some p \<longrightarrow>
                    \<not> nodeMatches (geom_start pedPartition) {PartitionRole_Extended} p)
                  \<longrightarrow> parent = [])))"
proof -
  have root_iff: "(findAmong s' rf' 0 table = None)
      = (\<forall>q p. nodeAt table q = Some p \<longrightarrow> \<not> nodeMatches s' rf' p)" for s' rf'
  proof
    assume none: "findAmong s' rf' 0 table = None"
    show "\<forall>q p. nodeAt table q = Some p \<longrightarrow> \<not> nodeMatches s' rf' p"
    proof (intro allI impI)
      fix q p assume at: "nodeAt table q = Some p"
      then obtain i q0 where "q = i # q0" by (cases q) auto
      with at have "i < length table" "subnode (table ! i) q0 = Some p"
        by (simp_all split: if_splits)
      with find_None(2)[OF none] show "\<not> nodeMatches s' rf' p" by blast
    qed
  next
    assume nomatch: "\<forall>q p. nodeAt table q = Some p \<longrightarrow> \<not> nodeMatches s' rf' p"
    show "findAmong s' rf' 0 table = None"
    proof (rule ccontr)
      assume "findAmong s' rf' 0 table \<noteq> None"
      then obtain q where "findAmong s' rf' 0 table = Some q" by auto
      from find_Some(2)[OF this] obtain j q0 p' where
        "q = (0 + j) # q0" "j < length table" "subnode (table ! j) q0 = Some p'"
        "nodeMatches s' rf' p'" by blast
      then have "nodeAt table (j # q0) = Some p'" by simp
      with nomatch \<open>nodeMatches s' rf' p'\<close> show False by blast
    qed
  qed
  let ?ptr = "case findAmong s rf 0 table of None \<Rightarrow> [] | Some q \<Rightarrow> q"
  have res: "findPartitionBySector table s rf = Some ?ptr"
    by (simp add: findPartitionBySector_def)
  have nonempty: "q \<noteq> []" if "findAmong s rf 0 table = Some q" for q
    using find_Some(2)[OF that] by auto
  have isroot: "(?ptr = []) = (\<forall>q p. nodeAt table q = Some p \<longrightarrow> \<not> nodeMatches s rf p)"
  proof (cases "findAmong s rf 0 table")
    case None
    with root_iff[of s rf] show ?thesis by simp
  next
    case (Some q)
    with root_iff[of s rf] nonempty[OF Some] show ?thesis by simp
  qed
  have inner: "\<exists>p. nodeAt table ?ptr = Some p \<and> nodeMatches s rf p
             \<and> (\<forall>q' p'. q' \<noteq> [] \<longrightarrow> nodeAt table (?ptr @ q') = Some p' \<longrightarrow>
                   \<not> nodeMatches s rf p')" if ne: "?ptr \<noteq> []"
  proof -
    from ne obtain q where some: "findAmong s rf 0 table = Some q"
      by (cases "findAmong s rf 0 table") auto
    from find_Some(2)[OF some] obtain j q0 p where
      f: "q = (0 + j) # q0" "j < length table" "subnode (table ! j) q0 = Some p"
         "nodeMatches s rf p"
         "\<forall>q' p''. q' \<noteq> [] \<longrightarrow> subnode p q' = Some p'' \<longrightarrow> \<not> nodeMatches s rf p''"
      by blast
    have ptr: "?ptr = j # q0" using some f(1) by simp
    have at: "nodeAt table (j # q0) = Some p" using f(2,3) by simp
    have below: "\<not> nodeMatches s rf p'"
      if "q' \<noteq> []" "nodeAt table ((j # q0) @ q') = Some p'" for q' p'
    proof -
      from that(2) f(2,3) have "subnode p q' = Some p'"
        by (simp add: subnode_append)
      with f(5) that(1) show ?thesis by blast
    qed
    show ?thesis unfolding ptr using at f(4) below by blast
  qed
  have scan: "\<exists>parent part. scanPartition env table pedPartition = Some (parent, part)
          \<and> findPartitionBySector table (geom_start pedPartition) {PartitionRole_Extended}
              = Some parent
          \<and> ((\<forall>q p. nodeAt table q = Some p \<longrightarrow>
                 \<not> nodeMatches (geom_start pedPartition) {PartitionRole_Extended} p)
               \<longrightarrow> parent = [])"
    if "representable pedPartition"
  proof -
    from that obtain parent part where
      some: "scanPartition env table pedPartition = Some (parent, part)"
      using scanPartition_None_iff[of env table pedPartition]
      by (cases "scanPartition env table pedPartition") auto
    from some have "parent =
        (case findPartitionBySector table (geom_start pedPartition) {PartitionRole_Extended} of
           None \<Rightarrow> [] | Some found \<Rightarrow> found)"
      by (auto simp: scanPartition_def Let_def split: if_splits option.splits prod.splits)
    then have p: "parent = (case findAmong (geom_start pedPartition) {PartitionRole_Extended} 0 table
                              of None \<Rightarrow> [] | Some q \<Rightarrow> q)"
      by (simp add: findPartitionBySector_def)
    have "findPartitionBySector table (geom_start pedPartition) {PartitionRole_Extended}
              = Some parent
          \<and> ((\<forall>q p. nodeAt table q = Some p \<longrightarrow>
                 \<not> nodeMatches (geom_start pedPartition) {PartitionRole_Extended} p)
               \<longrightarrow> parent = [])"
    proof (cases "findAmong (geom_start pedPartition) {PartitionRole_Extended} 0 table")
      case None
      with p show ?thesis by (simp add: findPartitionBySector_def)
    next
      case (Some q)
      with p root_iff[of "geom_start pedPartition" "{PartitionRole_Extended}"]
      show ?thesis by (auto simp: findPartitionBySector_def)
    qed
    with some show ?thesis by blast
  qed
  show ?thesis
    using res isroot inner scan by blast
qed

theorem findPartitionBySector_innermost_or_root_witness:
  "findPartitionBySector exampleTable 150000 {PartitionRole_Extended} = Some [1]
   \<and> findPartitionBySector exampleTable 150000 {PartitionRole_Extended, PartitionRole_Logical}
       = Some [1, 0]
   \<and> findPartitionBySector exampleTable 5000 {PartitionRole_Extended} = Some []
   \<and> nodeMatches 150000 {PartitionRole_Extended} (exampleTable ! 1)
   \<and> \<not> nodeMatches 5000 {PartitionRole_Extended} (exampleTable ! 0)
   \<and> representable (exampleRecords ! 1) \<and> representable (exampleRecords ! 4)
   \<and> (\<exists>part. scanPartition exampleEnv exampleTable (exampleRecords ! 1) = Some ([], part))
   \<and> (\<exists>part. scanPartition exampleEnv exampleTable (exampleRecords ! 4) = Some ([1], part))"
proof -
  have a: "findPartitionBySector exampleTable 150000 {PartitionRole_Extended} = Some [1]"
    by (simp add: findPartitionBySector_def exampleTable_def)
  have b: "findPartitionBySector exampleTable 150000 {PartitionRole_Extended, PartitionRole_Logical}
       = Some [1, 0]"
    by (simp add: findPartitionBySector_def exampleTable_def)
  have c: "findPartitionBySector exampleTable 5000 {PartitionRole_Extended} = Some []"
    by (simp add: findPartitionBySector_def exampleTable_def)
  have at1: "nodeAt exampleTable [1] = Some (exampleTable ! 1)"
    and at0: "nodeAt exampleTable [0] = Some (exampleTable ! 0)"
    by (simp_all add: exampleTable_def)
  have rep1: "representable (exampleRecords ! 1)" and rep4: "representable (exampleRecords ! 4)"
    by (simp_all add: representable_def exampleRecords_def)
  have start1: "geom_start (exampleRecords ! 1) = 2048"
    and start4: "geom_start (exampleRecords ! 4) = 413696"
    by (simp_all add: exampleRecords_def)
  have f1: "findPartitionBySector exampleTable 2048 {PartitionRole_Extended} = Some []"
    and f4: "findPartitionBySector exampleTable 413696 {PartitionRole_Extended} = Some [1]"
    by (simp_all add: findPartitionBySector_def exampleTable_def)
  from findPartitionBySector_innermost_or_root
         [of exampleTable 150000 "{PartitionRole_Extended}" "exampleRecords ! 4" exampleEnv]
  obtain ptr where ptr: "findPartitionBySector exampleTable 150000 {PartitionRole_Extended} = Some ptr"
    and found: "ptr \<noteq> [] \<longrightarrow>
          (\<exists>p. nodeAt exampleTable ptr = Some p \<and> nodeMatches 150000 {PartitionRole_Extended} p)"
    and scan4: "representable (exampleRecords ! 4) \<longrightarrow>
          (\<exists>parent part. scanPartition exampleEnv exampleTable (exampleRecords ! 4) = Some (parent, part)
             \<and> findPartitionBySector exampleTable (geom_start (exampleRecords ! 4))
                   {PartitionRole_Extended} = Some parent)"
    by blast
  from scan4 rep4 f4 have s4:
    "\<exists>part. scanPartition exampleEnv exampleTable (exampleRecords ! 4) = Some ([1], part)"
    unfolding start4 by auto
  from ptr a have "ptr = [1]" by simp
  with found at1 have m: "nodeMatches 150000 {PartitionRole_Extended} (exampleTable ! 1)"
    by simp
  from findPartitionBySector_innermost_or_root
         [of exampleTable 5000 "{PartitionRole_Extended}" "exampleRecords ! 1" exampleEnv]
  obtain ptr' where ptr': "findPartitionBySector exampleTable 5000 {PartitionRole_Extended} = Some ptr'"
    and root: "(ptr' = [])
        = (\<forall>q p. nodeAt exampleTable q = Some p \<longrightarrow> \<not> nodeMatches 5000 {PartitionRole_Extended} p)"
    and scan1: "representable (exampleRecords ! 1) \<longrightarrow>
          (\<exists>parent part. scanPartition exampleEnv exampleTable (exampleRecords ! 1) = Some (parent, part)
             \<and> findPartitionBySector exampleTable (geom_start (exampleRecords ! 1))
                   {PartitionRole_Extended} = Some parent)"
    by blast
  from scan1 rep1 f1 have s1:
    "\<exists>part. scanPartition exampleEnv exampleTable (exampleRecords ! 1) = Some ([], part)"
    unfolding start1 by auto
  from ptr' c have "ptr' = []" by simp
  with root at0 have n: "\<not> nodeMatches 5000 {PartitionRole_Extended} (exampleTable ! 0)"
    by blast
  from a b c m n rep1 rep4 s1 s4 show ?thesis by simp
qed

lemma nodeCounts_append: "nodeCounts (ps @ qs) = nodeCounts ps + nodeCounts qs"
  by (induction ps) simp_all

lemma nodeCounts_update:
  "i < length ps \<Longrightarrow> nodeCounts (ps[i := x]) + nodeCount (ps ! i) = nodeCounts ps + nodeCount x"
proof (induction ps arbitrary: i)
  case Nil
  then show ?case by simp
next
  case (Cons p ps)
  then show ?case by (cases i) auto
qed

text \<open>Appending below a node the pointer leads to adds the new partition's nodes.\<close>

lemma nodeCounts_appendAt:
  "ptr = [] \<or> nodeAt ps ptr \<noteq> None \<Longrightarrow>
     nodeCounts (appendAt ptr part ps) = nodeCounts ps + nodeCount part"
proof (induction ptr arbitrary: ps)
  case Nil
  then show ?case by (simp add: nodeCounts_append)
next
  case (Cons i q)
  from Cons.prems have i: "i < length ps" and sub: "subnode (ps ! i) q \<noteq> None"
    by (simp_all split: if_splits)
  obtain r fs firstS lastS node mp m cs where
    p: "ps ! i = Partition r fs firstS lastS node mp m cs"
    by (cases "ps ! i")
  have "q = [] \<or> nodeAt cs q \<noteq> None"
  proof (cases q)
    case Nil
    then show ?thesis by simp
  next
    case (Cons j q')
    with sub p show ?thesis by (auto split: if_splits)
  qed
  from Cons.IH[OF this]
  have "nodeCounts (appendAt q part cs) = nodeCounts cs + nodeCount part" .
  with nodeCounts_update[OF i, of "Partition r fs firstS lastS node mp m (appendAt q part cs)"]
  show ?case using i p by simp
qed

lemma findPartitionBySector_valid:
  "findPartitionBySector table s rf = Some ptr \<Longrightarrow> ptr = [] \<or> nodeAt table ptr \<noteq> None"
proof (cases "findAmong s rf 0 table")
  case None
  assume "findPartitionBySector table s rf = Some ptr"
  with None show ?thesis by (simp add: findPartitionBySector_def)
next
  case (Some q)
  assume "findPartitionBySector table s rf = Some ptr"
  with Some have "ptr = q" by (simp add: findPartitionBySector_def)
  with find_Some(2)[OF Some] show ?thesis by auto
qed

text \<open>
  One step of the loop on a record that is not skipped: the new partition starts at the
  record's first sector and has no children, and its parent is a node of the table.
\<close>

lemma scanPartition_step:
  assumes "scanPartition env table pedPartition = Some (parent, part)"
  shows "firstSector part = geom_start pedPartition"
    and "nodeCounts (appendAt parent part table) = Suc (nodeCounts table)"
proof -
  from assms obtain r t where
    parent: "parent = (case findPartitionBySector table (geom_start pedPartition) {PartitionRole_Extended}
               of None \<Rightarrow> [] | Some found \<Rightarrow> found)"
    and part: "part = (case resolveMount env (case ped_path pedPartition of None \<Rightarrow> [] | Some pedPath \<Rightarrow> pedPath)
                  (ped_is_busy pedPartition) (FileSystemFactory_create t) of
             (fs', mountPt, mounted) \<Rightarrow>
               Partition {r} fs' (geom_start pedPartition) (geom_end pedPartition)
                 (case ped_path pedPartition of None \<Rightarrow> [] | Some pedPath \<Rightarrow> pedPath)
                 mountPt mounted [])"
    by (rule scanPartition_Some)
  from part show "firstSector part = geom_start pedPartition"
    by (simp split: prod.splits)
  from part have one: "nodeCount part = 1"
    by (simp split: prod.splits)
  have "parent = [] \<or> nodeAt table parent \<noteq> None"
    using parent
      findPartitionBySector_valid[of table "geom_start pedPartition" "{PartitionRole_Extended}"]
    by (cases "findPartitionBySector table (geom_start pedPartition) {PartitionRole_Extended}")
       simp_all
  from nodeCounts_appendAt[OF this, of part] one
  show "nodeCounts (appendAt parent part table) = Suc (nodeCounts table)" by simp
qed

text \<open>
  What the loop does with the table and the list \<open>partitions\<close>: skipped records leave
  both as they are, and each other record adds one partition to each.
\<close>

lemma scanLoop_filter:
  "scanLoop env (table, parts) recs = scanLoop env (table, parts) (filter representable recs)"
proof (induction recs arbitrary: table parts)
  case Nil
  show ?case by simp
next
  case (Cons pedPartition rest)
  show ?case
  proof (cases "scanPartition env table pedPartition")
    case None
    then have "\<not> representable pedPartition" by (simp add: scanPartition_None_iff)
    with None show ?thesis using Cons.IH[of table parts] by simp
  next
    case (Some res)
    obtain parent part where res: "res = (parent, part)" by (cases res)
    from Some have "representable pedPartition"
      using scanPartition_None_iff[of env table pedPartition] by simp
    with Some res show ?thesis
      using Cons.IH[of "appendAt parent part table" "parts @ [part]"] by simp
  qed
qed

lemma scanLoop_partitions:
  "map firstSector (snd (scanLoop env (table, parts) recs))
     = map firstSector parts @ map geom_start (filter representable recs)"
proof (induction recs arbitrary: table parts)
  case Nil
  show ?case by simp
next
  case (Cons pedPartition rest)
  show ?case
  proof (cases "scanPartition env table pedPartition")
    case None
    then have "\<not> representable pedPartition" by (simp add: scanPartition_None_iff)
    with None show ?thesis using Cons.IH[of table parts] by simp
  next
    case (Some res)
    obtain parent part where res: "res = (parent, part)" by (cases res)
    from Some have "representable pedPartition"
      using scanPartition_None_iff[of env table pedPartition] by simp
    moreover have "firstSector part = geom_start pedPartition"
      using scanPartition_step(1)[of env table pedPartition parent part] Some res by simp
    ultimately show ?thesis
      using Some res Cons.IH[of "appendAt parent part table" "parts @ [part]"] by simp
  qed
qed

lemma scanLoop_nodeCounts:
  "nodeCounts (fst (scanLoop env (table, parts) recs))
     = nodeCounts table + length (filter representable recs)"
proof (induction recs arbitrary: table parts)
  case Nil
  show ?case by simp
next
  case (Cons pedPartition rest)
  show ?case
  proof (cases "scanPartition env table pedPartition")
    case None
    then have "\<not> representable pedPartition" by (simp add: scanPartition_None_iff)
    with None show ?thesis using Cons.IH[of table parts] by simp
  next
    case (Some res)
    obtain parent part where res: "res = (parent, part)" by (cases res)
    from Some have "representable pedPartition"
      using scanPartition_None_iff[of env table pedPartition] by simp
    moreover have "nodeCounts (appendAt parent part table) = Suc (nodeCounts table)"
      using scanPartition_step(2)[of env table pedPartition parent part] Some res by simp
    ultimately show ?thesis
      using Some res Cons.IH[of "appendAt parent part table" "parts @ [part]"] by simp
  qed
qed

text \<open>
  C7. The scan skips exactly the records that have no valid partition number or whose
  kind is not normal, extended or logical, and goes on with the records that follow:
  the table and the list of partitions it ends with are those of the scan of the other
  records alone. Each of the other records is processed, in order: it adds one
  partition, which starts at the record's first sector, to the list and one node to the
  tree.
\<close>

theorem scanLoop_skips_unrepresentable:
  "(scanPartition env table pedPartition = None) = (\<not> representable pedPartition)
   \<and> scanLoop env (table, parts) recs = scanLoop env (table, parts) (filter representable recs)
   \<and> map firstSector (snd (scanLoop env (table, parts) recs))
       = map firstSector parts @ map geom_start (filter representable recs)
   \<and> nodeCounts (fst (scanLoop env (table, parts) recs))
       = nodeCounts table + length (filter representable recs)"
  using scanPartition_None_iff[of env table pedPartition] scanLoop_filter[of env table parts recs]
    scanLoop_partitions[of env table parts recs] scanLoop_nodeCounts[of env table parts recs]
  by blast

end
